theory Spec2Isabelle
  imports Complex_Main "HOL-Library.Multiset"
begin

section \<open>JavaScript values\<close>

text \<open>
  The handlers of \<^verbatim>\<open>src/index.js\<close> work on untyped JSON documents, so the model has one
  type of JavaScript values. A number is \<open>NaN\<close>, an infinity, or an exact rational: the
  handlers never do arithmetic on stored numbers apart from the subtraction inside the sort
  comparator, so the rounding of binary64 is not modelled, and \<open>-0\<close> is \<open>0\<close>.
  A \<open>Date\<close> is its epoch time in milliseconds. Strings are byte strings.
\<close>

datatype jsnum = NaN | NInf | Num rat | PInf

datatype jv =
    JUndef
  | JNull
  | JBool bool
  | JNum jsnum
  | JStr string
  | JDate int
  | JArr "jv list"
  | JObj "(string \<times> jv) list"

text \<open>
  What the host gives and the repository does not define: the two renderings of a
  \<open>Date\<close>, the collation behind \<open>String.prototype.localeCompare\<close>, and the environment
  variable \<open>ENGINE_VERSION\<close>.
\<close>

record runtime =
  toISOString :: "int \<Rightarrow> string"
  dateToString :: "int \<Rightarrow> string"
  localeCompare :: "string \<Rightarrow> string \<Rightarrow> int"
  ENGINE_VERSION :: "string option"

subsection \<open>Truthiness and the operators \<open>??\<close> and \<open>||\<close>\<close>

fun truthy :: "jv \<Rightarrow> bool" where
  "truthy JUndef = False"
| "truthy JNull = False"
| "truthy (JBool b) = b"
| "truthy (JNum n) = (n \<noteq> NaN \<and> n \<noteq> Num 0)"
| "truthy (JStr s) = (s \<noteq> [])"
| "truthy (JDate d) = True"
| "truthy (JArr xs) = True"
| "truthy (JObj kvs) = True"

definition nullish :: "jv \<Rightarrow> bool" where
  "nullish v = (v = JUndef \<or> v = JNull)"

definition coalesce :: "jv \<Rightarrow> jv \<Rightarrow> jv" where
  \<comment> \<open>\<open>a ?? b\<close>\<close>
  "coalesce a b = (if nullish a then b else a)"

definition or_else :: "jv \<Rightarrow> jv \<Rightarrow> jv" where
  \<comment> \<open>\<open>a || b\<close>\<close>
  "or_else a b = (if truthy a then a else b)"

subsection \<open>Property reads and object spread\<close>

text \<open>
  \<open>get v k\<close> is \<open>v.k\<close> for a value that is neither \<open>null\<close> nor \<open>undefined\<close> (the
  callers raise a \<open>TypeError\<close> before reading those). Only own properties of objects are
  modelled: the names the handlers read (\<open>id\<close>, \<open>slip_id\<close>, \<open>legs\<close>, \<open>match_data\<close>,
  \<open>home_team\<close>, ...) are not defined on the prototypes of arrays, numbers and booleans.
\<close>

fun get :: "jv \<Rightarrow> string \<Rightarrow> jv" where
  "get (JObj kvs) k = (case map_of kvs k of None \<Rightarrow> JUndef | Some v \<Rightarrow> v)"
| "get v k = JUndef"

fun string_of_nat :: "nat \<Rightarrow> string" where
  "string_of_nat n =
     (if n < 10 then [''0123456789'' ! n]
      else string_of_nat (n div 10) @ [''0123456789'' ! (n mod 10)])"

declare string_of_nat.simps [simp del]

definition string_of_int :: "int \<Rightarrow> string" where
  "string_of_int i = (if i < 0 then ''-'' @ string_of_nat (nat (- i)) else string_of_nat (nat i))"

type_synonym doc = "string \<rightharpoonup> jv"

fun indexed :: "nat \<Rightarrow> jv list \<Rightarrow> (string \<times> jv) list" where
  "indexed i [] = []"
| "indexed i (v # vs) = (string_of_nat i, v) # indexed (Suc i) vs"

fun spread :: "jv \<Rightarrow> doc" where
  \<comment> \<open>the own enumerable properties copied by \<open>{...v}\<close>\<close>
  "spread (JObj kvs) = map_of kvs"
| "spread (JArr xs) = map_of (indexed 0 xs)"
| "spread (JStr s) = map_of (indexed 0 (map (\<lambda>c. JStr [c]) s))"
| "spread v = Map.empty"

definition dget :: "doc \<Rightarrow> string \<Rightarrow> jv" where
  \<comment> \<open>\<open>d.k\<close> on a stored document\<close>
  "dget d k = (case d k of None \<Rightarrow> JUndef | Some v \<Rightarrow> v)"

subsection \<open>\<open>String(v)\<close>, \<open>parseFloat\<close>, \<open>parseInt\<close>, \<open>toLowerCase\<close>\<close>

fun frac_digits :: "nat \<Rightarrow> rat \<Rightarrow> string" where
  "frac_digits 0 r = []"
| "frac_digits (Suc fuel) r =
     (if r = 0 then []
      else (let d = nat \<lfloor>r * 10\<rfloor> in (''0123456789'' ! d) # frac_digits fuel (r * 10 - of_nat d)))"

definition string_of_rat :: "rat \<Rightarrow> string" where
  \<comment> \<open>positional decimal notation, as \<open>Number.prototype.toString\<close> prints a number
      between \<open>1e-7\<close> and \<open>1e21\<close> in magnitude; at most 20 fractional digits\<close>
  "string_of_rat r =
     (let a = \<bar>r\<bar>; ip = nat \<lfloor>a\<rfloor>; fp = a - of_nat ip in
        (if r < 0 then ''-'' else '''') @ string_of_nat ip @
        (if fp = 0 then '''' else ''.'' @ frac_digits 20 fp))"

fun string_of_num :: "jsnum \<Rightarrow> string" where
  "string_of_num NaN = ''NaN''"
| "string_of_num PInf = ''Infinity''"
| "string_of_num NInf = ''-Infinity''"
| "string_of_num (Num r) = string_of_rat r"

fun join_comma :: "string list \<Rightarrow> string" where
  "join_comma [] = []"
| "join_comma [s] = s"
| "join_comma (s # t # ss) = s @ '','' @ join_comma (t # ss)"

fun String :: "runtime \<Rightarrow> jv \<Rightarrow> string" where
  "String rt JUndef = ''undefined''"
| "String rt JNull = ''null''"
| "String rt (JBool b) = (if b then ''true'' else ''false'')"
| "String rt (JNum n) = string_of_num n"
| "String rt (JStr s) = s"
| "String rt (JDate d) = dateToString rt d"
| "String rt (JArr xs) =
     join_comma (map (\<lambda>x. if x = JUndef \<or> x = JNull then [] else String rt x) xs)"
| "String rt (JObj kvs) = ''[object Object]''"

definition is_ws :: "char \<Rightarrow> bool" where
  "is_ws c = (c \<in> set [CHR '' '', CHR 0x09, CHR 0x0A, CHR 0x0B, CHR 0x0C, CHR 0x0D])"

definition digit_val :: "char \<Rightarrow> nat option" where
  "digit_val c = map_of (zip ''0123456789'' [0, 1, 2, 3, 4, 5, 6, 7, 8, 9]) c"

definition hex_val :: "char \<Rightarrow> nat option" where
  "hex_val c =
     map_of (zip ''0123456789abcdefABCDEF''
       [0, 1, 2, 3, 4, 5, 6, 7, 8, 9, 10, 11, 12, 13, 14, 15, 10, 11, 12, 13, 14, 15]) c"

fun take_digits :: "(char \<Rightarrow> nat option) \<Rightarrow> string \<Rightarrow> nat list \<times> string" where
  \<comment> \<open>the longest prefix of digits, as their values, and the rest\<close>
  "take_digits dv [] = ([], [])"
| "take_digits dv (c # cs) =
     (case dv c of
        None \<Rightarrow> ([], c # cs)
      | Some d \<Rightarrow> (let (ds, rest) = take_digits dv cs in (d # ds, rest)))"

definition nat_of_digits :: "nat \<Rightarrow> nat list \<Rightarrow> nat" where
  "nat_of_digits base ds = foldl (\<lambda>acc d. acc * base + d) 0 ds"

definition split_sign :: "string \<Rightarrow> int \<times> string" where
  "split_sign s =
     (case s of
        c # cs \<Rightarrow> (if c = CHR ''-'' then (- 1, cs) else if c = CHR ''+'' then (1, cs) else (1, s))
      | [] \<Rightarrow> (1, s))"

definition pow10 :: "int \<Rightarrow> rat" where
  "pow10 e = (if e < 0 then 1 / 10 ^ nat (- e) else 10 ^ nat e)"

definition parse_exponent :: "string \<Rightarrow> int" where
  \<comment> \<open>the optional exponent part \<open>e[+-]ddd\<close> of a decimal literal\<close>
  "parse_exponent s =
     (case s of
        c # cs \<Rightarrow>
          (if c = CHR ''e'' \<or> c = CHR ''E'' then
             (let (sg, r) = split_sign cs; (ds, _) = take_digits digit_val r in
                if ds = [] then 0 else sg * int (nat_of_digits 10 ds))
           else 0)
      | [] \<Rightarrow> 0)"

definition parseFloat :: "string \<Rightarrow> jsnum" where
  "parseFloat s =
     (let (sg, s2) = split_sign (dropWhile is_ws s) in
        if take 8 s2 = ''Infinity'' then (if sg < 0 then NInf else PInf)
        else
          (let (ip, r1) = take_digits digit_val s2;
               (fp, r2) = (case r1 of
                             c # cs \<Rightarrow> (if c = CHR ''.'' then take_digits digit_val cs else ([], r1))
                           | [] \<Rightarrow> ([], r1))
           in if ip = [] \<and> fp = [] then NaN
              else Num (of_int sg * of_nat (nat_of_digits 10 (ip @ fp)) / 10 ^ length fp
                          * pow10 (parse_exponent r2))))"

definition parseInt :: "string \<Rightarrow> jsnum" where
  \<comment> \<open>\<open>parseInt(s)\<close> without a radix: decimal, or hexadecimal after \<open>0x\<close>\<close>
  "parseInt s =
     (let (sg, s2) = split_sign (dropWhile is_ws s) in
        if take 2 s2 = ''0x'' \<or> take 2 s2 = ''0X'' then
          (let (ds, _) = take_digits hex_val (drop 2 s2) in
             if ds = [] then NaN else Num (of_int sg * of_nat (nat_of_digits 16 ds)))
        else
          (let (ds, _) = take_digits digit_val s2 in
             if ds = [] then NaN else Num (of_int sg * of_nat (nat_of_digits 10 ds))))"

definition lower_char :: "char \<Rightarrow> char" where
  "lower_char c =
     (case map_of (zip ''ABCDEFGHIJKLMNOPQRSTUVWXYZ'' ''abcdefghijklmnopqrstuvwxyz'') c of
        None \<Rightarrow> c
      | Some l \<Rightarrow> l)"

definition toLowerCase :: "string \<Rightarrow> string" where
  "toLowerCase s = map lower_char s"

section \<open>The document store\<close>

text \<open>
  The MongoDB collections of \<^verbatim>\<open>connectMongo\<close>. A stored document is a finite map from
  field names to values; a collection is the list of its documents in insertion order.
  The driver writes \<open>undefined\<close> as \<open>null\<close>. An equality condition \<open>{k: v}\<close> holds of a
  document whose field \<open>k\<close> equals \<open>v\<close>, and \<open>{k: null}\<close> also of a document without the
  field. The object identifier \<open>_id\<close> that the server adds is left out, and so is the
  matching of a scalar against the elements of an array-valued field.
\<close>

type_synonym collection = "doc list"

record collections =
  master_slips :: collection
  generated_slips :: collection
  optimized_slips :: collection
  master_slip_matches :: collection
  generated_slip_legs :: collection
  matches :: collection

definition bson :: "jv \<Rightarrow> jv" where
  "bson v = (if v = JUndef then JNull else v)"

definition field_matches :: "doc \<Rightarrow> string \<Rightarrow> jv \<Rightarrow> bool" where
  "field_matches d k v = (case d k of None \<Rightarrow> bson v = JNull | Some w \<Rightarrow> w = bson v)"

definition field_in :: "doc \<Rightarrow> string \<Rightarrow> jv list \<Rightarrow> bool" where
  \<comment> \<open>\<open>{k: {$in: vs}}\<close>\<close>
  "field_in d k vs = list_ex (field_matches d k) vs"

definition matches_filter :: "(string \<times> jv) list \<Rightarrow> doc \<Rightarrow> bool" where
  "matches_filter f d = list_all (\<lambda>(k, v). field_matches d k v) f"

definition find_docs :: "(string \<times> jv) list \<Rightarrow> collection \<Rightarrow> doc list" where
  \<comment> \<open>\<open>collection.find(f).toArray()\<close>\<close>
  "find_docs f c = filter (matches_filter f) c"

definition findOne :: "(string \<times> jv) list \<Rightarrow> collection \<Rightarrow> doc option" where
  "findOne f c = List.find (matches_filter f) c"

definition set_fields :: "doc \<Rightarrow> doc \<Rightarrow> doc" where
  \<comment> \<open>\<open>$set\<close>: the listed fields are written, every other field stays\<close>
  "set_fields d s = d ++ (map_option bson \<circ> s)"

fun updateOne :: "(string \<times> jv) list \<Rightarrow> doc \<Rightarrow> collection \<Rightarrow> collection" where
  \<comment> \<open>\<open>collection.updateOne(f, {$set: s}, {upsert: true})\<close>: the first document that
      matches is updated; when none does, a document made of the filter's fields and
      of \<open>s\<close> is inserted\<close>
  "updateOne f s [] = [set_fields (map_of (map (\<lambda>(k, v). (k, bson v)) f)) s]"
| "updateOne f s (d # ds) =
     (if matches_filter f d then set_fields d s # ds else d # updateOne f s ds)"

section \<open>GET /api/placement-slips/:masterSlipId\<close>

record leg_out =
  match_id :: jsnum
  home_team :: string
  away_team :: string
  market :: string
  selection :: string
  odds :: jsnum

record slip_out =
  slip_id :: string
  master_slip_id :: jsnum
  confidence_score :: string
  total_odds :: jsnum
  stake :: jsnum
  estimated_return :: jsnum
  risk_category :: string
  diversity_score :: "jsnum option"
  created_at :: string
  legs :: "leg_out list"


datatype exn = TypeError

datatype 'a reply = Ok 'a | Fail nat string

subsection \<open>The \<open>Set\<close> of match ids and the \<open>Map\<close> of resolved matches\<close>

text \<open>
  Keys of a \<open>Set\<close> or \<open>Map\<close> are compared by value when they are primitive and by
  identity when they are objects. Every document read from the store is a fresh object,
  so an object, array or date never equals a key that is already there.
\<close>

definition primitive :: "jv \<Rightarrow> bool" where
  "primitive v = (case v of JObj kvs \<Rightarrow> False | JArr xs \<Rightarrow> False | JDate d \<Rightarrow> False | _ \<Rightarrow> True)"

definition set_add :: "jv list \<Rightarrow> jv \<Rightarrow> jv list" where
  "set_add ids v = (if primitive v \<and> v \<in> set ids then ids else ids @ [v])"

type_synonym matches_map = "jv \<rightharpoonup> doc"

definition map_set :: "matches_map \<Rightarrow> jv \<Rightarrow> doc \<Rightarrow> matches_map" where
  "map_set m k d = (if primitive k then m(k \<mapsto> d) else m)"

definition map_get :: "matches_map \<Rightarrow> jv \<Rightarrow> doc option" where
  "map_get m k = (if primitive k then m k else None)"

definition collect_match_ids :: "(doc \<times> doc list) list \<Rightarrow> jv list" where
  \<comment> \<open>index.js 169-178\<close>
  "collect_match_ids sl =
     foldl (\<lambda>ids (slip, slip_legs).
              foldl (\<lambda>ids leg. if truthy (dget leg ''match_id'')
                                then set_add ids (dget leg ''match_id'') else ids) ids slip_legs)
           [] sl"

definition team :: "jv \<Rightarrow> string \<Rightarrow> string \<Rightarrow> jv" where
  \<comment> \<open>\<open>match_data.home_team || match_data.homeTeam || ""\<close>\<close>
  "team md snake camel = or_else (get md snake) (or_else (get md camel) (JStr []))"

definition tier1_entry :: "doc \<Rightarrow> doc" where
  "tier1_entry m =
     [''id'' \<mapsto> dget m ''match_id'',
      ''home_team'' \<mapsto> team (dget m ''match_data'') ''home_team'' ''homeTeam'',
      ''away_team'' \<mapsto> team (dget m ''match_data'') ''away_team'' ''awayTeam'']"

definition tier1 :: "collections \<Rightarrow> string \<Rightarrow> jv list \<Rightarrow> matches_map" where
  \<comment> \<open>index.js 185-208\<close>
  "tier1 c masterSlipId matchIds =
     (if matchIds \<noteq> [] then
        foldl (\<lambda>mm m. if truthy (dget m ''match_data'')
                       then map_set mm (dget m ''match_id'') (tier1_entry m) else mm)
          Map.empty
          (filter (\<lambda>d. field_matches d ''master_slip_id'' (JNum (parseInt masterSlipId))
                        \<and> field_in d ''match_id'' matchIds)
                  (master_slip_matches c))
      else Map.empty)"

definition remainingMatchIds :: "matches_map \<Rightarrow> jv list \<Rightarrow> jv list" where
  "remainingMatchIds mm matchIds = filter (\<lambda>i. map_get mm i = None) matchIds"

definition tier2 :: "collections \<Rightarrow> jv list \<Rightarrow> matches_map \<Rightarrow> matches_map" where
  \<comment> \<open>index.js 211-222\<close>
  "tier2 c remaining mm =
     (if remaining \<noteq> [] then
        foldl (\<lambda>mm m. map_set mm (dget m ''id'') m) mm
          (filter (\<lambda>d. field_in d ''id'' remaining) (matches c))
      else mm)"

definition matchesMap :: "collections \<Rightarrow> string \<Rightarrow> jv list \<Rightarrow> matches_map" where
  "matchesMap c masterSlipId matchIds =
     (let mm = tier1 c masterSlipId matchIds
      in tier2 c (remainingMatchIds mm matchIds) mm)"

subsection \<open>Mapping a slip to the response format\<close>

definition leg_match :: "matches_map \<Rightarrow> doc \<Rightarrow> string \<Rightarrow> jv" where
  \<comment> \<open>the fields of \<open>leg.match || matchesMap.get(leg.match_id) || {}\<close>\<close>
  "leg_match mm leg =
     (if truthy (dget leg ''match'') then get (dget leg ''match'')
      else (case map_get mm (dget leg ''match_id'') of
              Some m \<Rightarrow> dget m
            | None \<Rightarrow> (\<lambda>k. JUndef)))"

definition map_leg :: "runtime \<Rightarrow> matches_map \<Rightarrow> doc \<Rightarrow> leg_out" where
  \<comment> \<open>index.js 258-270\<close>
  "map_leg rt mm leg =
     \<lparr> match_id = parseInt (String rt (dget leg ''match_id'')),
       home_team = String rt (coalesce (leg_match mm leg ''home_team'') (JStr [])),
       away_team = String rt (coalesce (leg_match mm leg ''away_team'') (JStr [])),
       market = String rt (coalesce (dget leg ''market'') (JStr [])),
       selection = String rt (coalesce (dget leg ''selection'') (JStr [])),
       odds = parseFloat (String rt (coalesce (dget leg ''odds'') (JNum (Num 0)))) \<rparr>"

definition estimatedReturn :: "doc \<Rightarrow> jv" where
  "estimatedReturn slip =
     coalesce (dget slip ''estimated_return'')
       (coalesce (dget slip ''estimated_payout'')
          (coalesce (dget slip ''possible_return'') (JNum (Num 0))))"

definition riskCategory :: "doc \<Rightarrow> exn + string" where
  \<comment> \<open>\<open>(slip.risk_category ?? slip.risk_level ?? "unknown").toLowerCase()\<close>: only a
      string has the method, calling it on anything else raises\<close>
  "riskCategory slip =
     (case coalesce (dget slip ''risk_category'')
             (coalesce (dget slip ''risk_level'') (JStr ''unknown'')) of
        JStr s \<Rightarrow> Inr (toLowerCase s)
      | _ \<Rightarrow> Inl TypeError)"

definition createdAt :: "runtime \<Rightarrow> doc \<Rightarrow> string" where
  \<comment> \<open>index.js 254-257\<close>
  "createdAt rt slip =
     (let date = coalesce (dget slip ''created_at'') (dget slip ''generated_at'')
      in case date of JDate d \<Rightarrow> toISOString rt d | _ \<Rightarrow> String rt date)"

definition map_slip :: "runtime \<Rightarrow> matches_map \<Rightarrow> doc \<times> doc list \<Rightarrow> exn + slip_out" where
  \<comment> \<open>index.js 226-272; the second component is \<open>slip.legs\<close> as line 163 has set it\<close>
  "map_slip rt mm sl =
     (case sl of (slip, slip_legs) \<Rightarrow>
        (case riskCategory slip of
           Inl e \<Rightarrow> Inl e
         | Inr risk \<Rightarrow>
             Inr \<lparr> slip_id = String rt (or_else (dget slip ''slip_id'')
                                          (or_else (dget slip ''id'') (JStr []))),
                   master_slip_id = parseInt (String rt (dget slip ''master_slip_id'')),
                   confidence_score =
                     String rt (coalesce (dget slip ''confidence_score'') (JNum (Num 0))),
                   total_odds =
                     parseFloat (String rt (coalesce (dget slip ''total_odds'') (JNum (Num 0)))),
                   stake = parseFloat (String rt (coalesce (dget slip ''stake'') (JNum (Num 0)))),
                   estimated_return = parseFloat (String rt (estimatedReturn slip)),
                   risk_category = risk,
                   diversity_score =
                     (if dget slip ''diversity_score'' \<noteq> JNull
                         \<and> dget slip ''diversity_score'' \<noteq> JUndef
                      then Some (parseFloat (String rt (dget slip ''diversity_score'')))
                      else None),
                   created_at = createdAt rt slip,
                   legs = map (map_leg rt mm) slip_legs \<rparr>))"

fun map_all :: "('a \<Rightarrow> exn + 'b) \<Rightarrow> 'a list \<Rightarrow> exn + 'b list" where
  \<comment> \<open>\<open>Array.prototype.map\<close> with a callback that may raise\<close>
  "map_all f [] = Inr []"
| "map_all f (x # xs) =
     (case f x of
        Inl e \<Rightarrow> Inl e
      | Inr y \<Rightarrow> (case map_all f xs of Inl e \<Rightarrow> Inl e | Inr ys \<Rightarrow> Inr (y # ys)))"

subsection \<open>The sort\<close>

definition num_neq :: "jsnum \<Rightarrow> jsnum \<Rightarrow> bool" where
  \<comment> \<open>\<open>a !== b\<close> on numbers: \<open>NaN\<close> differs from everything, itself included\<close>
  "num_neq a b = (a = NaN \<or> b = NaN \<or> a \<noteq> b)"

fun num_sub :: "jsnum \<Rightarrow> jsnum \<Rightarrow> jsnum" where
  "num_sub NaN b = NaN"
| "num_sub a NaN = NaN"
| "num_sub (Num a) (Num b) = Num (a - b)"
| "num_sub PInf PInf = NaN"
| "num_sub NInf NInf = NaN"
| "num_sub PInf b = PInf"
| "num_sub NInf b = NInf"
| "num_sub (Num a) PInf = NInf"
| "num_sub (Num a) NInf = PInf"

definition slip_compare :: "runtime \<Rightarrow> slip_out \<Rightarrow> slip_out \<Rightarrow> jsnum" where
  \<comment> \<open>index.js 274-285\<close>
  "slip_compare rt a b =
     (let confA = parseFloat (confidence_score a); confB = parseFloat (confidence_score b)
      in if num_neq confB confA then num_sub confB confA
         else if num_neq (total_odds b) (total_odds a) then num_sub (total_odds b) (total_odds a)
         else Num (of_int (localeCompare rt (slip_id a) (slip_id b))))"

definition positive :: "jsnum \<Rightarrow> bool" where
  \<comment> \<open>how \<open>Array.prototype.sort\<close> reads a comparator's result: \<open>NaN\<close> counts as \<open>+0\<close>\<close>
  "positive v = (case v of NaN \<Rightarrow> False | NInf \<Rightarrow> False | Num r \<Rightarrow> 0 < r | PInf \<Rightarrow> True)"

fun insert_by :: "('a \<Rightarrow> 'a \<Rightarrow> jsnum) \<Rightarrow> 'a \<Rightarrow> 'a list \<Rightarrow> 'a list" where
  "insert_by cmp x [] = [x]"
| "insert_by cmp x (y # ys) =
     (if positive (cmp x y) then y # insert_by cmp x ys else x # y # ys)"

definition js_sort :: "('a \<Rightarrow> 'a \<Rightarrow> jsnum) \<Rightarrow> 'a list \<Rightarrow> 'a list" where
  \<comment> \<open>\<open>Array.prototype.sort(cmp)\<close>: a stable sort; an element moves behind a later one
      only when the comparator puts it strictly after\<close>
  "js_sort cmp xs = foldr (insert_by cmp) xs []"

subsection \<open>The handler\<close>

definition with_legs :: "collections \<Rightarrow> doc \<Rightarrow> doc \<times> doc list" where
  \<comment> \<open>index.js 162-166\<close>
  "with_legs c slip = (slip, find_docs [(''slip_id'', dget slip ''slip_id'')] (generated_slip_legs c))"

definition fetch_slips :: "collections \<Rightarrow> string \<Rightarrow> (doc \<times> doc list) list" where
  "fetch_slips c masterSlipId =
     map (with_legs c) (find_docs [(''master_slip_id'', JStr masterSlipId)] (generated_slips c))"

definition mappedSlips :: "runtime \<Rightarrow> collections \<Rightarrow> string \<Rightarrow> exn + slip_out list" where
  "mappedSlips rt c masterSlipId =
     (let sl = fetch_slips c masterSlipId;
          mm = matchesMap c masterSlipId (collect_match_ids sl)
      in case map_all (map_slip rt mm) sl of
           Inl e \<Rightarrow> Inl e
         | Inr ms \<Rightarrow> Inr (js_sort (slip_compare rt) ms))"


section \<open>POST /api/sync-slips\<close>

text \<open>
  The handler reads the clock (\<open>new Date()\<close>, \<open>Date.now()\<close>) and \<open>Math.random()\<close>. In the
  model one request reads one clock value \<open>now\<close>, in epoch milliseconds, and \<open>rnd i\<close> is
  the text \<open>Math.random().toString(36).slice(2)\<close> drawn for the entry at position \<open>i\<close>
  of \<open>generated_slips\<close>. Reading a property of \<open>null\<close> or \<open>undefined\<close> raises a
  \<open>TypeError\<close>, which the handler's \<open>catch\<close> turns into the answer 500 with every
  earlier write kept: a loop returns \<open>Raised\<close> with the store as it stands. Errors of
  the database itself are not modelled.
\<close>

datatype 'a run = Done 'a | Raised 'a

record sync_counts =
  count_master_slips :: nat
  count_generated_slips :: nat
  count_optimized_slips :: nat
  count_matches :: nat
  count_master_slip_matches :: nat

record sync_report =
  synced :: sync_counts
  synced_master_slip_id :: string

definition array_items :: "jv \<Rightarrow> jv list" where
  \<comment> \<open>the elements a loop guarded by \<open>Array.isArray(v) && v.length > 0\<close> runs over\<close>
  "array_items v = (case v of JArr xs \<Rightarrow> xs | _ \<Rightarrow> [])"

definition master_key :: "runtime \<Rightarrow> jv \<Rightarrow> string" where
  \<comment> \<open>\<open>String(master_slip.id || master_slip.master_slip_id)\<close>\<close>
  "master_key rt ms = String rt (or_else (get ms ''id'') (get ms ''master_slip_id''))"

definition masterSlipData :: "runtime \<Rightarrow> int \<Rightarrow> jv \<Rightarrow> doc" where
  \<comment> \<open>index.js 344-348\<close>
  "masterSlipData rt now ms =
     (spread ms)(''master_slip_id'' \<mapsto> JStr (master_key rt ms), ''updated_at'' \<mapsto> JDate now)"

definition synthesized_id :: "int \<Rightarrow> string \<Rightarrow> string" where
  "synthesized_id now r = ''gen_'' @ string_of_int now @ ''_'' @ r"

definition slip_key :: "runtime \<Rightarrow> int \<Rightarrow> string \<Rightarrow> jv \<Rightarrow> string" where
  \<comment> \<open>index.js 371-377\<close>
  "slip_key rt now r slip =
     String rt (or_else (get slip ''id'')
                 (or_else (get slip ''slip_id'') (JStr (synthesized_id now r))))"

definition slipData :: "runtime \<Rightarrow> int \<Rightarrow> string \<Rightarrow> string \<Rightarrow> jv \<Rightarrow> doc" where
  \<comment> \<open>index.js 369-380\<close>
  "slipData rt now r K slip =
     (spread slip)(''slip_id'' \<mapsto> JStr (slip_key rt now r slip),
                   ''master_slip_id'' \<mapsto> JStr K,
                   ''updated_at'' \<mapsto> JDate now)"

definition legData :: "int \<Rightarrow> string \<Rightarrow> string \<Rightarrow> jv \<Rightarrow> doc" where
  \<comment> \<open>index.js 394-404\<close>
  "legData now S K leg =
     (spread leg)(''slip_id'' \<mapsto> JStr S,
                  ''master_slip_id'' \<mapsto> JStr K,
                  ''match_id'' \<mapsto> get leg ''match_id'',
                  ''market'' \<mapsto> get leg ''market'',
                  ''selection'' \<mapsto> get leg ''selection'',
                  ''odds'' \<mapsto> get leg ''odds'',
                  ''match'' \<mapsto> or_else (get leg ''match'') JNull,
                  ''updated_at'' \<mapsto> JDate now)"

fun sync_legs :: "int \<Rightarrow> string \<Rightarrow> string \<Rightarrow> jv list \<Rightarrow> collection \<Rightarrow> collection run" where
  \<comment> \<open>index.js 393-411, on the collection \<open>generated_slip_legs\<close>\<close>
  "sync_legs now S K [] c = Done c"
| "sync_legs now S K (leg # ls) c =
     (if nullish leg then Raised c
      else sync_legs now S K ls (updateOne [(''id'', get leg ''id'')] (legData now S K leg) c))"

fun sync_generated ::
  "runtime \<Rightarrow> int \<Rightarrow> (nat \<Rightarrow> string) \<Rightarrow> string \<Rightarrow> nat \<Rightarrow> jv list \<Rightarrow> collections
     \<Rightarrow> collections run" where
  \<comment> \<open>index.js 367-414; \<open>i\<close> is the position of the first entry of the list\<close>
  "sync_generated rt now rnd K i [] c = Done c"
| "sync_generated rt now rnd K i (slip # ss) c =
     (if nullish slip then Raised c
      else
        (let S = slip_key rt now (rnd i) slip;
             c1 = c\<lparr> generated_slips :=
                       updateOne [(''slip_id'', JStr S)] (slipData rt now (rnd i) K slip)
                         (generated_slips c) \<rparr>
         in case sync_legs now S K (array_items (get slip ''legs'')) (generated_slip_legs c1) of
              Raised l \<Rightarrow> Raised (c1\<lparr> generated_slip_legs := l \<rparr>)
            | Done l \<Rightarrow>
                sync_generated rt now rnd K (Suc i) ss (c1\<lparr> generated_slip_legs := l \<rparr>)))"

definition stampedData :: "int \<Rightarrow> string \<Rightarrow> jv \<Rightarrow> doc" where
  \<comment> \<open>index.js 425-429 and 449-453\<close>
  "stampedData now K x =
     (spread x)(''master_slip_id'' \<mapsto> JNum (parseInt K), ''updated_at'' \<mapsto> JDate now)"

fun sync_optimized :: "int \<Rightarrow> string \<Rightarrow> jv list \<Rightarrow> collection \<Rightarrow> collection run" where
  \<comment> \<open>index.js 424-437, on the collection \<open>optimized_slips\<close>\<close>
  "sync_optimized now K [] c = Done c"
| "sync_optimized now K (slip # ss) c =
     (if nullish slip then Raised c
      else sync_optimized now K ss
             (updateOne [(''id'', get slip ''id''), (''master_slip_id'', JNum (parseInt K))]
                (stampedData now K slip) c))"

definition extractedMatch :: "jv \<Rightarrow> doc" where
  \<comment> \<open>index.js 466-477: the spread of \<open>match_data\<close> comes last\<close>
  "extractedMatch m =
     [''id'' \<mapsto> get m ''match_id'',
      ''home_team'' \<mapsto> team (get m ''match_data'') ''home_team'' ''homeTeam'',
      ''away_team'' \<mapsto> team (get m ''match_data'') ''away_team'' ''awayTeam'']
     ++ spread (get m ''match_data'')"

fun sync_matches :: "int \<Rightarrow> string \<Rightarrow> jv list \<Rightarrow> collections \<Rightarrow> collections run" where
  \<comment> \<open>index.js 448-486\<close>
  "sync_matches now K [] c = Done c"
| "sync_matches now K (m # ms) c =
     (if nullish m then Raised c
      else
        (let c1 = c\<lparr> master_slip_matches :=
                       updateOne [(''id'', get m ''id'')] (stampedData now K m)
                         (master_slip_matches c) \<rparr>;
             c2 = (if truthy (get m ''match_data'')
                   then c1\<lparr> matches :=
                             updateOne [(''id'', dget (extractedMatch m) ''id'')]
                               (extractedMatch m) (matches c1) \<rparr>
                   else c1)
         in sync_matches now K ms c2))"

definition syncSlips ::
  "runtime \<Rightarrow> int \<Rightarrow> (nat \<Rightarrow> string) \<Rightarrow> collections option \<Rightarrow> jv
     \<Rightarrow> sync_report reply \<times> collections option" where
  \<comment> \<open>index.js 320-512: the answer and the store after the request\<close>
  "syncSlips rt now rnd cols payload =
     (case cols of
        None \<Rightarrow> (Fail 503 ''Database unavailable'', None)
      | Some c \<Rightarrow>
          if nullish payload then (Fail 500 ''Failed to sync slips'', Some c)
          else if \<not> truthy (get payload ''master_slip'')
          then (Fail 400 ''Invalid payload: master_slip is required'', Some c)
          else
            (let ms = get payload ''master_slip'';
                 K = master_key rt ms;
                 c1 = c\<lparr> master_slips :=
                           updateOne [(''master_slip_id'', JStr K)] (masterSlipData rt now ms)
                             (master_slips c) \<rparr>
             in case sync_generated rt now rnd K 0
                       (array_items (get payload ''generated_slips'')) c1 of
                  Raised c2 \<Rightarrow> (Fail 500 ''Failed to sync slips'', Some c2)
                | Done c2 \<Rightarrow>
                    (case sync_optimized now K (array_items (get payload ''optimized_slips''))
                            (optimized_slips c2) of
                       Raised opt \<Rightarrow>
                         (Fail 500 ''Failed to sync slips'', Some (c2\<lparr> optimized_slips := opt \<rparr>))
                     | Done opt \<Rightarrow>
                         (case sync_matches now K (array_items (get payload ''matches''))
                                 (c2\<lparr> optimized_slips := opt \<rparr>) of
                            Raised c4 \<Rightarrow> (Fail 500 ''Failed to sync slips'', Some c4)
                          | Done c4 \<Rightarrow>
                              (Ok \<lparr> synced =
                                     \<lparr> count_master_slips = 1,
                                       count_generated_slips =
                                         length (array_items (get payload ''generated_slips'')),
                                       count_optimized_slips =
                                         length (array_items (get payload ''optimized_slips'')),
                                       count_matches =
                                         length (filter (\<lambda>m. truthy (get m ''match_data''))
                                                   (array_items (get payload ''matches''))),
                                       count_master_slip_matches =
                                         length (array_items (get payload ''matches'')) \<rparr>,
                                     synced_master_slip_id = K \<rparr>,
                               Some c4)))))"

section \<open>Specification-side definitions and sample inputs\<close>

fun code_unit_compare :: "string \<Rightarrow> string \<Rightarrow> int" where
  "code_unit_compare [] [] = 0"
| "code_unit_compare [] (y # ys) = - 1"
| "code_unit_compare (x # xs) [] = 1"
| "code_unit_compare (x # xs) (y # ys) =
     (if x = y then code_unit_compare xs ys
      else if (of_char x :: nat) < of_char y then - 1 else 1)"

definition sample_runtime :: runtime where
  "sample_runtime =
     \<lparr> toISOString = string_of_int, dateToString = string_of_int,
       localeCompare = code_unit_compare, ENGINE_VERSION = None \<rparr>"

fun num_less :: "jsnum \<Rightarrow> jsnum \<Rightarrow> bool" where
  "num_less (Num a) (Num b) = (a < b)"
| "num_less NInf (Num b) = True"
| "num_less NInf PInf = True"
| "num_less (Num a) PInf = True"
| "num_less a b = False"

definition ordered_before :: "runtime \<Rightarrow> slip_out \<Rightarrow> slip_out \<Rightarrow> bool" where
  "ordered_before rt a b =
     (let ca = parseFloat (confidence_score a); cb = parseFloat (confidence_score b) in
        num_less cb ca \<or>
        (ca = cb \<and>
           (num_less (total_odds b) (total_odds a) \<or>
            (total_odds a = total_odds b \<and> localeCompare rt (slip_id a) (slip_id b) \<le> 0))))"

definition numeric :: "slip_out \<Rightarrow> bool" where
  "numeric x = (parseFloat (confidence_score x) \<noteq> NaN \<and> total_odds x \<noteq> NaN)"

definition collation_ok :: "runtime \<Rightarrow> slip_out list \<Rightarrow> bool" where
  "collation_ok rt ms =
     ((\<forall>a\<in>set ms. \<forall>b\<in>set ms.
         localeCompare rt (slip_id a) (slip_id b) \<le> 0 \<or> localeCompare rt (slip_id b) (slip_id a) \<le> 0) \<and>
      (\<forall>a\<in>set ms. \<forall>b\<in>set ms. \<forall>c\<in>set ms.
         localeCompare rt (slip_id a) (slip_id b) \<le> 0 \<longrightarrow> localeCompare rt (slip_id b) (slip_id c) \<le> 0
           \<longrightarrow> localeCompare rt (slip_id a) (slip_id c) \<le> 0))"


text \<open>
  The specification's ordering example: three stored slips of master slip \<open>1\<close>, none
  with legs.
\<close>

definition ordering_example :: collections where
  "ordering_example =
     \<lparr> master_slips = [[''master_slip_id'' \<mapsto> JStr ''1'']],
       generated_slips =
         [[''master_slip_id'' \<mapsto> JStr ''1'', ''slip_id'' \<mapsto> JStr ''b'',
           ''confidence_score'' \<mapsto> JStr ''80'', ''total_odds'' \<mapsto> JNum (Num 5)],
          [''master_slip_id'' \<mapsto> JStr ''1'', ''slip_id'' \<mapsto> JStr ''a'',
           ''confidence_score'' \<mapsto> JStr ''80'', ''total_odds'' \<mapsto> JNum (Num 5)],
          [''master_slip_id'' \<mapsto> JStr ''1'', ''slip_id'' \<mapsto> JStr ''c'',
           ''confidence_score'' \<mapsto> JStr ''90'', ''total_odds'' \<mapsto> JNum (Num 1)]],
       optimized_slips = [], master_slip_matches = [], generated_slip_legs = [],
       matches = [] \<rparr>"

definition plain_slip :: "string \<Rightarrow> string \<Rightarrow> rat \<Rightarrow> slip_out" where
  \<comment> \<open>what \<open>map_slip\<close> makes of a stored slip that has only an id, a confidence score
      and total odds\<close>
  "plain_slip i conf tot =
     \<lparr> slip_id = i, master_slip_id = Num 1, confidence_score = conf, total_odds = Num tot,
       stake = Num 0, estimated_return = Num 0, risk_category = ''unknown'',
       diversity_score = None, created_at = ''undefined'', legs = [] \<rparr>"

text \<open>Three stored slips, the second with a confidence score that is not a number.\<close>

definition unparsable_example :: collections where
  "unparsable_example =
     \<lparr> master_slips = [[''master_slip_id'' \<mapsto> JStr ''1'']],
       generated_slips =
         [[''master_slip_id'' \<mapsto> JStr ''1'', ''slip_id'' \<mapsto> JStr ''s1'',
           ''confidence_score'' \<mapsto> JNum (Num 1), ''total_odds'' \<mapsto> JNum (Num 5)],
          [''master_slip_id'' \<mapsto> JStr ''1'', ''slip_id'' \<mapsto> JStr ''s2'',
           ''confidence_score'' \<mapsto> JStr ''n/a'', ''total_odds'' \<mapsto> JNum (Num 5)],
          [''master_slip_id'' \<mapsto> JStr ''1'', ''slip_id'' \<mapsto> JStr ''s3'',
           ''confidence_score'' \<mapsto> JNum (Num 2), ''total_odds'' \<mapsto> JNum (Num 5)]],
       optimized_slips = [], master_slip_matches = [], generated_slip_legs = [],
       matches = [] \<rparr>"



text \<open>
  A master slip with one stored slip of two legs. Match 7 is known to both tiers, with
  different team names; match 8 is known to neither.
\<close>

definition resolution_example :: collections where
  "resolution_example =
     \<lparr> master_slips = [[''master_slip_id'' \<mapsto> JStr ''1'']],
       generated_slips = [[''master_slip_id'' \<mapsto> JStr ''1'', ''slip_id'' \<mapsto> JStr ''s1'']],
       optimized_slips = [],
       master_slip_matches =
         [[''id'' \<mapsto> JNum (Num 1), ''master_slip_id'' \<mapsto> JNum (Num 1),
           ''match_id'' \<mapsto> JNum (Num 7),
           ''match_data'' \<mapsto> JObj [(''home_team'', JStr ''A''), (''away_team'', JStr ''C'')]]],
       generated_slip_legs =
         [[''id'' \<mapsto> JNum (Num 1), ''slip_id'' \<mapsto> JStr ''s1'', ''match_id'' \<mapsto> JNum (Num 7)],
          [''id'' \<mapsto> JNum (Num 2), ''slip_id'' \<mapsto> JStr ''s1'', ''match_id'' \<mapsto> JNum (Num 8)]],
       matches =
         [[''id'' \<mapsto> JNum (Num 7), ''home_team'' \<mapsto> JStr ''B'', ''away_team'' \<mapsto> JStr ''D'']] \<rparr>"


definition empty_store :: collections where
  "empty_store =
     \<lparr> master_slips = [], generated_slips = [], optimized_slips = [],
       master_slip_matches = [], generated_slip_legs = [], matches = [] \<rparr>"

definition sample_random :: "nat \<Rightarrow> string" where
  "sample_random i = ''r'' @ string_of_nat i"

text \<open>A sync payload whose master slip has neither \<open>id\<close> nor \<open>master_slip_id\<close>.\<close>

definition keyless_payload :: jv where
  "keyless_payload = JObj [(''master_slip'', JObj [(''user_id'', JStr ''u1'')])]"

text \<open>
  A sync payload with one \<open>matches\<close> entry whose \<open>match_data\<close> has its own \<open>id\<close>, a
  \<open>null\<close> snake-case home team and a camel-case one.
\<close>

definition match_data_payload :: jv where
  "match_data_payload =
     JObj [(''master_slip'', JObj [(''id'', JNum (Num 5))]),
           (''matches'',
            JArr [JObj [(''id'', JNum (Num 1)), (''match_id'', JNum (Num 10)),
                        (''match_data'',
                         JObj [(''id'', JNum (Num 999)), (''home_team'', JNull),
                               (''homeTeam'', JStr ''Arsenal''),
                               (''away_team'', JStr ''Chelsea'')])]])]"



fun state_of :: "'a run \<Rightarrow> 'a" where
  "state_of (Done x) = x"
| "state_of (Raised x) = x"

text \<open>A store with one master slip that has a creation time, and a sync payload for it.\<close>

definition created_example :: collections where
  "created_example =
     empty_store \<lparr> master_slips :=
       [[''master_slip_id'' \<mapsto> JStr ''5'', ''created_at'' \<mapsto> JDate 1, ''stake'' \<mapsto> JNum (Num 1)]] \<rparr>"

definition restake_payload :: jv where
  "restake_payload = JObj [(''master_slip'', JObj [(''id'', JNum (Num 5)), (''stake'', JNum (Num 10))])]"

subsection \<open>Upserts as operations on one collection\<close>

text \<open>
  An upsert is a filter and a \<open>$set\<close> document. \<open>kv d k\<close> is what an equality condition on
  field \<open>k\<close> sees of the document \<open>d\<close>. An upsert is keyed on the fields \<open>ks\<close> when its
  filter is on exactly these fields and its \<open>$set\<close> document writes to them nothing but
  the filter's own values.
\<close>

type_synonym upsert = "(string \<times> jv) list \<times> doc"

definition run_ops :: "upsert list \<Rightarrow> collection \<Rightarrow> collection" where
  "run_ops ops c = foldl (\<lambda>c (f, s). updateOne f s c) c ops"

definition kv :: "doc \<Rightarrow> string \<Rightarrow> jv" where
  "kv d k = (case d k of None \<Rightarrow> JNull | Some w \<Rightarrow> w)"

definition key_of :: "string list \<Rightarrow> doc \<Rightarrow> jv list" where
  "key_of ks d = map (kv d) ks"

definition filter_key :: "(string \<times> jv) list \<Rightarrow> jv list" where
  "filter_key f = map (bson \<circ> snd) f"

definition inserted :: "(string \<times> jv) list \<Rightarrow> doc \<Rightarrow> doc" where
  "inserted f s = set_fields (map_of (map (\<lambda>(k, v). (k, bson v)) f)) s"

definition keyed :: "string list \<Rightarrow> upsert \<Rightarrow> bool" where
  "keyed ks u = (case u of (f, s) \<Rightarrow>
     map fst f = ks \<and> (\<forall>(k, v)\<in>set f. \<forall>w. s k = Some w \<longrightarrow> bson w = bson v))"

definition same_but :: "(string \<times> jv) list \<Rightarrow> doc \<Rightarrow> collection \<Rightarrow> collection \<Rightarrow> bool" where
  \<comment> \<open>two states of a collection that differ at most in the first document matching
      \<open>f\<close>, and there only in fields that \<open>s\<close> writes\<close>
  "same_but f s x y =
     (x = y \<or>
      (\<exists>pre d e post. x = pre @ d # post \<and> y = pre @ e # post \<and>
         (\<forall>z\<in>set pre. \<not> matches_filter f z) \<and> matches_filter f d \<and> matches_filter f e \<and>
         set_fields d s = set_fields e s))"

section \<open>The sort is a stable sort by the three keys\<close>

lemma positive_num_sub:
  "a \<noteq> NaN \<Longrightarrow> b \<noteq> NaN \<Longrightarrow> a \<noteq> b \<Longrightarrow> positive (num_sub b a) = num_less a b"
  by (cases a; cases b) (auto simp: positive_def)

lemma num_less_total: "a \<noteq> NaN \<Longrightarrow> b \<noteq> NaN \<Longrightarrow> a \<noteq> b \<Longrightarrow> num_less a b \<or> num_less b a"
  by (cases a; cases b) auto

lemma num_less_asym: "num_less a b \<Longrightarrow> \<not> num_less b a"
  by (cases a; cases b) auto

lemma num_less_irrefl: "\<not> num_less a a"
  by (cases a) auto

lemma num_less_trans: "num_less a b \<Longrightarrow> num_less b c \<Longrightarrow> num_less a c"
  by (cases a; cases b; cases c) auto

lemma compare_ordered:
  assumes "numeric a" "numeric b"
  shows "(\<not> positive (slip_compare rt a b)) = ordered_before rt a b"
proof -
  let ?ca = "parseFloat (confidence_score a)" and ?cb = "parseFloat (confidence_score b)"
  have n: "?ca \<noteq> NaN" "?cb \<noteq> NaN" "total_odds a \<noteq> NaN" "total_odds b \<noteq> NaN"
    using assms by (simp_all add: numeric_def)
  show ?thesis
  proof (cases "?ca = ?cb")
    case False
    then have "positive (slip_compare rt a b) = num_less ?ca ?cb"
      using n by (simp add: slip_compare_def num_neq_def positive_num_sub)
    moreover have "num_less ?ca ?cb \<or> num_less ?cb ?ca"
      using False n by (simp add: num_less_total)
    ultimately show ?thesis
      using False num_less_asym [of ?ca ?cb] by (auto simp: ordered_before_def Let_def)
  next
    case ceq: True
    show ?thesis
    proof (cases "total_odds a = total_odds b")
      case False
      then have "positive (slip_compare rt a b) = num_less (total_odds a) (total_odds b)"
        using n ceq by (simp add: slip_compare_def num_neq_def positive_num_sub)
      moreover have "num_less (total_odds a) (total_odds b) \<or> num_less (total_odds b) (total_odds a)"
        using False n by (simp add: num_less_total)
      ultimately show ?thesis
        using False ceq num_less_asym [of "total_odds a" "total_odds b"] num_less_irrefl [of ?cb]
        by (auto simp: ordered_before_def Let_def)
    next
      case True
      then show ?thesis
        using n ceq num_less_irrefl [of ?cb] num_less_irrefl [of "total_odds b"]
        by (auto simp: slip_compare_def num_neq_def ordered_before_def positive_def Let_def)
    qed
  qed
qed

lemma set_insert_by: "set (insert_by cmp x ys) = insert x (set ys)"
  by (induction ys) auto

lemma mset_insert_by: "mset (insert_by cmp x ys) = add_mset x (mset ys)"
  by (induction ys) auto

lemma set_js_sort: "set (js_sort cmp xs) = set xs"
  by (induction xs) (auto simp: js_sort_def set_insert_by)

lemma mset_js_sort: "mset (js_sort cmp xs) = mset xs"
  by (induction xs) (auto simp: js_sort_def mset_insert_by)

lemma sorted_insert_by:
  assumes cons: "\<forall>a\<in>A. \<forall>b\<in>A. (\<not> positive (cmp a b)) = R a b"
    and total: "\<forall>a\<in>A. \<forall>b\<in>A. R a b \<or> R b a"
    and trans: "\<forall>a\<in>A. \<forall>b\<in>A. \<forall>c\<in>A. R a b \<longrightarrow> R b c \<longrightarrow> R a c"
  shows "x \<in> A \<Longrightarrow> set ys \<subseteq> A \<Longrightarrow> sorted_wrt R ys \<Longrightarrow> sorted_wrt R (insert_by cmp x ys)"
proof (induction ys)
  case Nil
  then show ?case by simp
next
  case (Cons y ys)
  show ?case
  proof (cases "positive (cmp x y)")
    case True
    then have "R y x" using cons total Cons.prems by (metis list.set_intros(1) subsetD)
    then show ?thesis using True Cons by (auto simp: set_insert_by)
  next
    case False
    then have xy: "R x y" using cons Cons.prems by (metis list.set_intros(1) subsetD)
    have "R x z" if "z \<in> set ys" for z
    proof -
      have "R y z" using Cons.prems(3) that by simp
      then show ?thesis using xy trans Cons.prems that
        by (metis list.set_intros(1) list.set_intros(2) subsetD)
    qed
    then show ?thesis using False xy Cons.prems by auto
  qed
qed

lemma sorted_js_sort:
  assumes cons: "\<forall>a\<in>A. \<forall>b\<in>A. (\<not> positive (cmp a b)) = R a b"
    and total: "\<forall>a\<in>A. \<forall>b\<in>A. R a b \<or> R b a"
    and trans: "\<forall>a\<in>A. \<forall>b\<in>A. \<forall>c\<in>A. R a b \<longrightarrow> R b c \<longrightarrow> R a c"
  shows "set xs \<subseteq> A \<Longrightarrow> sorted_wrt R (js_sort cmp xs)"
proof (induction xs)
  case Nil
  then show ?case by (simp add: js_sort_def)
next
  case (Cons x xs)
  have "sorted_wrt R (insert_by cmp x (js_sort cmp xs))"
    using Cons by (intro sorted_insert_by [OF cons total trans]) (auto simp: set_js_sort)
  then show ?case by (simp add: js_sort_def)
qed

lemma ordered_before_total:
  assumes "numeric a" "numeric b"
    "localeCompare rt (slip_id a) (slip_id b) \<le> 0 \<or> localeCompare rt (slip_id b) (slip_id a) \<le> 0"
  shows "ordered_before rt a b \<or> ordered_before rt b a"
proof (cases "parseFloat (confidence_score a) = parseFloat (confidence_score b)")
  case False
  then show ?thesis
    using assms num_less_total [of "parseFloat (confidence_score a)" "parseFloat (confidence_score b)"]
    by (auto simp: ordered_before_def numeric_def Let_def)
next
  case ceq: True
  show ?thesis
  proof (cases "total_odds a = total_odds b")
    case False
    then show ?thesis
      using assms ceq num_less_total [of "total_odds a" "total_odds b"]
      by (auto simp: ordered_before_def numeric_def Let_def)
  next
    case True
    then show ?thesis
      using assms(3) ceq by (auto simp: ordered_before_def Let_def)
  qed
qed

lemma ordered_before_trans:
  assumes "ordered_before rt a b" "ordered_before rt b c"
    "localeCompare rt (slip_id a) (slip_id b) \<le> 0 \<longrightarrow> localeCompare rt (slip_id b) (slip_id c) \<le> 0
           \<longrightarrow> localeCompare rt (slip_id a) (slip_id c) \<le> 0"
  shows "ordered_before rt a c"
  using assms by (auto simp: ordered_before_def Let_def dest: num_less_trans)

section \<open>Facts about the response builder\<close>

lemma map_all_Inr: "map_all f xs = Inr ys \<Longrightarrow> list_all2 (\<lambda>x y. f x = Inr y) xs ys"
  by (induction xs arbitrary: ys) (auto split: sum.splits)

lemma list_all2_ex: "list_all2 P xs ys \<Longrightarrow> x \<in> set xs \<Longrightarrow> \<exists>y\<in>set ys. P x y"
  by (induction rule: list_all2_induct) auto

lemma map_all_Inl: "map_all f xs = Inl e \<Longrightarrow> \<exists>x\<in>set xs. f x = Inl e"
  by (induction xs) (auto split: sum.splits)

lemma map_slip_Inl: "map_slip rt mm (slip, l) = Inl e \<Longrightarrow> riskCategory slip = Inl e"
  by (auto simp: map_slip_def split: sum.splits)

lemma map_slip_legs: "map_slip rt mm (slip, l) = Inr out \<Longrightarrow> legs out = map (map_leg rt mm) l"
  by (auto simp: map_slip_def split: sum.splits)

lemma mappedSlips_cases:
  "mappedSlips rt c m =
     (case map_all (map_slip rt (matchesMap c m (collect_match_ids (fetch_slips c m))))
             (fetch_slips c m) of
        Inl e \<Rightarrow> Inl e
      | Inr ms \<Rightarrow> Inr (js_sort (slip_compare rt) ms))"
  by (simp add: mappedSlips_def Let_def)

lemma unresolved_leg_names:
  assumes "\<not> truthy (dget leg ''match'')" and "map_get mm (dget leg ''match_id'') = None"
  shows "home_team (map_leg rt mm leg) = []" and "away_team (map_leg rt mm leg) = []"
  using assms by (simp_all add: map_leg_def leg_match_def coalesce_def nullish_def)

lemma mappedSlips_Inr_map_all:
  assumes "mappedSlips rt c m = Inr ms"
  shows "\<exists>ms0. map_all (map_slip rt (matchesMap c m (collect_match_ids (fetch_slips c m))))
                 (fetch_slips c m) = Inr ms0 \<and> ms = js_sort (slip_compare rt) ms0"
proof (cases "map_all (map_slip rt (matchesMap c m (collect_match_ids (fetch_slips c m))))
                 (fetch_slips c m)")
  case (Inl e)
  then show ?thesis using assms by (simp add: mappedSlips_cases)
next
  case (Inr ms0)
  then show ?thesis using assms by (simp add: mappedSlips_cases)
qed

lemma mappedSlips_Inl_map_all:
  assumes "mappedSlips rt c m = Inl e"
  shows "map_all (map_slip rt (matchesMap c m (collect_match_ids (fetch_slips c m))))
                 (fetch_slips c m) = Inl e"
proof (cases "map_all (map_slip rt (matchesMap c m (collect_match_ids (fetch_slips c m))))
                 (fetch_slips c m)")
  case (Inl e)
  then show ?thesis using assms by (simp add: mappedSlips_cases)
next
  case (Inr ms0)
  then show ?thesis using assms by (simp add: mappedSlips_cases)
qed

lemma mappedSlips_keeps_legs:
  assumes "mappedSlips rt c m = Inr ms"
    and "(slip, slip_legs) \<in> set (fetch_slips c m)"
  shows "\<exists>out\<in>set ms. legs out =
           map (map_leg rt (matchesMap c m (collect_match_ids (fetch_slips c m)))) slip_legs"
proof -
  let ?mm = "matchesMap c m (collect_match_ids (fetch_slips c m))"
  obtain ms0 where m0: "map_all (map_slip rt ?mm) (fetch_slips c m) = Inr ms0"
    and ms: "ms = js_sort (slip_compare rt) ms0"
    using mappedSlips_Inr_map_all [OF assms(1)] by blast
  have "list_all2 (\<lambda>x y. map_slip rt ?mm x = Inr y) (fetch_slips c m) ms0"
    by (rule map_all_Inr [OF m0])
  from list_all2_ex [OF this assms(2)]
  obtain out where o: "out \<in> set ms0" "map_slip rt ?mm (slip, slip_legs) = Inr out"
    by blast
  have "legs out = map (map_leg rt ?mm) slip_legs"
    by (rule map_slip_legs [OF o(2)])
  moreover have "out \<in> set ms" using o(1) by (simp add: ms set_js_sort)
  ultimately show ?thesis by blast
qed

lemma mappedSlips_fails_on_risk:
  assumes "mappedSlips rt c m = Inl e"
  shows "\<exists>sl\<in>set (fetch_slips c m). riskCategory (fst sl) = Inl e"
proof -
  let ?mm = "matchesMap c m (collect_match_ids (fetch_slips c m))"
  have "map_all (map_slip rt ?mm) (fetch_slips c m) = Inl e"
    by (rule mappedSlips_Inl_map_all [OF assms])
  from map_all_Inl [OF this]
  obtain sl where sl: "sl \<in> set (fetch_slips c m)" "map_slip rt ?mm sl = Inl e"
    by blast
  have "map_slip rt ?mm (fst sl, snd sl) = Inl e" using sl(2) by simp
  then have "riskCategory (fst sl) = Inl e" by (rule map_slip_Inl)
  then show ?thesis using sl(1) by blast
qed






lemma truthy_bson: "truthy r \<Longrightarrow> bson r = r"
  by (cases r) (simp_all add: bson_def)







section \<open>Facts about the upsert of legs\<close>



lemma id_filter_other:
  assumes "d ''id'' = Some i" "bson j \<noteq> i"
  shows "\<not> matches_filter [(''id'', j)] d"
  using assms by (simp add: matches_filter_def field_matches_def)





section \<open>Facts about the sync handler\<close>

lemma sync_generated_master_slips:
  "master_slips (state_of (sync_generated rt now rnd K i ss c)) = master_slips c"
proof (induction ss arbitrary: i c)
  case Nil
  then show ?case by simp
next
  case (Cons s ss)
  show ?case
  proof (cases "nullish s")
    case True
    then show ?thesis by simp
  next
    case False
    let ?S = "slip_key rt now (rnd i) s"
    let ?c1 = "c\<lparr> generated_slips :=
                   updateOne [(''slip_id'', JStr ?S)] (slipData rt now (rnd i) K s)
                     (generated_slips c) \<rparr>"
    show ?thesis
    proof (cases "sync_legs now ?S K (array_items (get s ''legs'')) (generated_slip_legs ?c1)")
      case (Done l)
      then show ?thesis
        using False Cons.IH [of "Suc i" "?c1\<lparr> generated_slip_legs := l \<rparr>"]
        by (simp add: Let_def)
    next
      case (Raised l)
      then show ?thesis using False by (simp add: Let_def)
    qed
  qed
qed

lemma sync_matches_master_slips:
  "master_slips (state_of (sync_matches now K ms c)) = master_slips c"
proof (induction ms arbitrary: c)
  case Nil
  then show ?case by simp
next
  case (Cons m ms)
  show ?case
  proof (cases "nullish m")
    case True
    then show ?thesis by simp
  next
    case False
    then show ?thesis
      using Cons.IH by (simp add: Let_def)
  qed
qed

lemma syncSlips_master_slips:
  assumes "\<not> nullish payload" "truthy (get payload ''master_slip'')"
    and "snd (syncSlips rt now rnd (Some c) payload) = Some c'"
  shows "master_slips c' =
           updateOne [(''master_slip_id'', JStr (master_key rt (get payload ''master_slip'')))]
             (masterSlipData rt now (get payload ''master_slip'')) (master_slips c)"
proof -
  let ?ms = "get payload ''master_slip''"
  let ?K = "master_key rt ?ms"
  let ?c1 = "c\<lparr> master_slips :=
                 updateOne [(''master_slip_id'', JStr ?K)] (masterSlipData rt now ?ms)
                   (master_slips c) \<rparr>"
  let ?g = "sync_generated rt now rnd ?K 0 (array_items (get payload ''generated_slips'')) ?c1"
  have g: "master_slips (state_of ?g) = master_slips ?c1"
    by (rule sync_generated_master_slips)
  show ?thesis
  proof (cases ?g)
    case (Raised c2)
    then have "c' = c2" using assms by (simp add: syncSlips_def Let_def)
    then show ?thesis using g Raised by simp
  next
    case (Done c2)
    let ?o = "sync_optimized now ?K (array_items (get payload ''optimized_slips''))
                (optimized_slips c2)"
    have c2: "master_slips c2 = master_slips ?c1" using g Done by simp
    show ?thesis
    proof (cases ?o)
      case (Raised opt)
      then have "c' = c2\<lparr> optimized_slips := opt \<rparr>"
        using assms Done by (simp add: syncSlips_def Let_def)
      then show ?thesis using c2 by simp
    next
      case od: (Done opt)
      let ?m = "sync_matches now ?K (array_items (get payload ''matches''))
                  (c2\<lparr> optimized_slips := opt \<rparr>)"
      have m: "master_slips (state_of ?m) = master_slips (c2\<lparr> optimized_slips := opt \<rparr>)"
        by (rule sync_matches_master_slips)
      have "c' = state_of ?m"
        using assms Done od by (cases ?m) (simp_all add: syncSlips_def Let_def)
      then show ?thesis using m c2 by simp
    qed
  qed
qed

lemma updateOne_found_created_at:
  assumes "s ''created_at'' = None"
  shows "findOne f c = Some d \<Longrightarrow>
         map (\<lambda>x. x ''created_at'') (updateOne f s c) = map (\<lambda>x. x ''created_at'') c"
proof (induction c)
  case Nil
  then show ?case by (simp add: findOne_def)
next
  case (Cons x xs)
  show ?case
  proof (cases "matches_filter f x")
    case True
    then show ?thesis using assms by (simp add: set_fields_def map_add_def)
  next
    case False
    then have "findOne f xs = Some d" using Cons.prems by (simp add: findOne_def)
    then show ?thesis using False Cons.IH by simp
  qed
qed

lemma updateOne_found:
  assumes "matches_filter f (set_fields d s)"
  shows "findOne f c = Some d \<Longrightarrow> findOne f (updateOne f s c) = Some (set_fields d s)"
proof (induction c)
  case Nil
  then show ?case by (simp add: findOne_def)
next
  case (Cons x xs)
  show ?case
  proof (cases "matches_filter f x")
    case True
    then have "x = d" using Cons.prems by (simp add: findOne_def)
    then show ?thesis using True assms by (simp add: findOne_def)
  next
    case False
    then have "findOne f xs = Some d" using Cons.prems by (simp add: findOne_def)
    then have "findOne f (updateOne f s xs) = Some (set_fields d s)" by (rule Cons.IH)
    then show ?thesis using False by (simp add: findOne_def)
  qed
qed

lemma master_filter_after:
  "matches_filter [(''master_slip_id'', JStr K)]
     (set_fields d ((spread ms)(''master_slip_id'' \<mapsto> JStr K, ''updated_at'' \<mapsto> JDate now)))"
  by (simp add: matches_filter_def field_matches_def set_fields_def map_add_def bson_def)

section \<open>C1: ordering of the slips array\<close>

lemma mappedSlips_Inr:
  assumes "mappedSlips rt c masterSlipId = Inr ms"
  shows "\<exists>ms0. ms = js_sort (slip_compare rt) ms0"
proof (cases "map_all (map_slip rt (matchesMap c masterSlipId
                 (collect_match_ids (fetch_slips c masterSlipId)))) (fetch_slips c masterSlipId)")
  case (Inl e)
  then show ?thesis using assms by (simp add: mappedSlips_def)
next
  case (Inr ms0)
  then have "ms = js_sort (slip_compare rt) ms0" using assms by (simp add: mappedSlips_def)
  then show ?thesis by blast
qed

lemma mappedSlips_sorted:
  assumes "mappedSlips rt c masterSlipId = Inr ms"
    and "\<forall>x\<in>set ms. numeric x"
    and "collation_ok rt ms"
  shows "sorted_wrt (ordered_before rt) ms"
proof -
  obtain ms0 where ms: "ms = js_sort (slip_compare rt) ms0"
    using mappedSlips_Inr [OF assms(1)] by blast
  have sub: "set ms0 \<subseteq> set ms" by (simp add: ms set_js_sort)
  have cons: "\<forall>a\<in>set ms. \<forall>b\<in>set ms. (\<not> positive (slip_compare rt a b)) = ordered_before rt a b"
  proof (intro ballI)
    fix a b assume "a \<in> set ms" "b \<in> set ms"
    then have "numeric a" "numeric b" using assms(2) by blast+
    then show "(\<not> positive (slip_compare rt a b)) = ordered_before rt a b"
      by (rule compare_ordered)
  qed
  have total: "\<forall>a\<in>set ms. \<forall>b\<in>set ms. ordered_before rt a b \<or> ordered_before rt b a"
  proof (intro ballI)
    fix a b assume in_ms: "a \<in> set ms" "b \<in> set ms"
    have "localeCompare rt (slip_id a) (slip_id b) \<le> 0
           \<or> localeCompare rt (slip_id b) (slip_id a) \<le> 0"
      using assms(3) in_ms unfolding collation_ok_def by blast
    moreover have "numeric a" "numeric b" using assms(2) in_ms by blast+
    ultimately show "ordered_before rt a b \<or> ordered_before rt b a"
      by (intro ordered_before_total)
  qed
  have trans: "\<forall>a\<in>set ms. \<forall>b\<in>set ms. \<forall>c\<in>set ms.
      ordered_before rt a b \<longrightarrow> ordered_before rt b c \<longrightarrow> ordered_before rt a c"
  proof (intro ballI impI)
    fix a b c assume in_ms: "a \<in> set ms" "b \<in> set ms" "c \<in> set ms"
      and ab: "ordered_before rt a b" and bc: "ordered_before rt b c"
    have "localeCompare rt (slip_id a) (slip_id b) \<le> 0 \<longrightarrow>
          localeCompare rt (slip_id b) (slip_id c) \<le> 0 \<longrightarrow>
          localeCompare rt (slip_id a) (slip_id c) \<le> 0"
      using assms(3) in_ms unfolding collation_ok_def by blast
    then show "ordered_before rt a c"
      by (rule ordered_before_trans [OF ab bc])
  qed
  have "sorted_wrt (ordered_before rt) (js_sort (slip_compare rt) ms0)"
    by (rule sorted_js_sort [OF cons total trans sub])
  then show ?thesis by (simp add: ms)
qed

lemma no_legs_no_match_ids: "collect_match_ids (map (\<lambda>d. (d, [])) ds) = []"
  by (induction ds) (simp_all add: collect_match_ids_def)

lemma matchesMap_no_ids: "matchesMap c m [] = Map.empty"
  by (simp add: matchesMap_def tier1_def tier2_def remainingMatchIds_def)

lemma parse_samples:
  "parseFloat ''80'' = Num 80" "parseFloat ''90'' = Num 90" "parseFloat ''5'' = Num 5"
  "parseFloat ''1'' = Num 1" "parseFloat ''0'' = Num 0" "parseFloat ''2'' = Num 2"
  "parseFloat ''n/a'' = NaN" "parseInt ''1'' = Num 1"
  by code_simp+

lemma print_samples:
  "string_of_rat 5 = ''5''" "string_of_rat 1 = ''1''" "string_of_rat 0 = ''0''"
  "string_of_rat 2 = ''2''"
  by code_simp+

lemma lower_unknown: "toLowerCase ''unknown'' = ''unknown''"
  by code_simp

lemma ordering_example_fetch:
  "fetch_slips ordering_example ''1'' = map (\<lambda>d. (d, [])) (generated_slips ordering_example)"
  by (simp add: fetch_slips_def with_legs_def find_docs_def matches_filter_def
      field_matches_def bson_def ordering_example_def)

lemma ordering_example_sort:
  assumes "0 < localeCompare rt ''b'' ''a''"
  shows "js_sort (slip_compare rt)
           [plain_slip ''b'' ''80'' 5, plain_slip ''a'' ''80'' 5, plain_slip ''c'' ''90'' 1]
         = [plain_slip ''c'' ''90'' 1, plain_slip ''a'' ''80'' 5, plain_slip ''b'' ''80'' 5]"
  using assms
  by (simp add: js_sort_def slip_compare_def num_neq_def positive_def plain_slip_def parse_samples)

lemma ordering_example_order:
  assumes "0 < localeCompare rt ''b'' ''a''"
  shows "mappedSlips rt ordering_example ''1'' =
           Inr [plain_slip ''c'' ''90'' 1, plain_slip ''a'' ''80'' 5, plain_slip ''b'' ''80'' 5]"
proof -
  have "map_all (map_slip rt Map.empty) (map (\<lambda>d. (d, [])) (generated_slips ordering_example))
      = Inr [plain_slip ''b'' ''80'' 5, plain_slip ''a'' ''80'' 5, plain_slip ''c'' ''90'' 1]"
    by (simp add: ordering_example_def map_slip_def riskCategory_def coalesce_def
        nullish_def dget_def or_else_def estimatedReturn_def createdAt_def plain_slip_def
        parse_samples print_samples lower_unknown)
  then show ?thesis
    by (simp add: mappedSlips_def ordering_example_fetch no_legs_no_match_ids matchesMap_no_ids
        ordering_example_sort [OF assms])
qed

text \<open>
  C1, amended. Whenever the handler produces a slips array all of whose confidence
  scores and total odds parse to numbers, and \<open>localeCompare\<close> is a total preorder on
  the ids in it, the array is sorted by confidence score descending (as a number), then
  total odds descending, then slip id ascending in the order of \<open>localeCompare\<close>. On the
  specification's example the order is \<open>c, a, b\<close> as soon as \<open>localeCompare\<close> puts
  \<open>b\<close> after \<open>a\<close>.
\<close>

theorem placement_slips_sorted:
  assumes "mappedSlips rt c masterSlipId = Inr ms"
    and "\<forall>x\<in>set ms. numeric x"
    and "collation_ok rt ms"
  shows "sorted_wrt (ordered_before rt) ms \<and>
         (0 < localeCompare rt ''b'' ''a'' \<longrightarrow>
            map_sum id (map slip_id) (mappedSlips rt ordering_example ''1'')
              = Inr [''c'', ''a'', ''b''])"
proof
  show "sorted_wrt (ordered_before rt) ms"
    by (rule mappedSlips_sorted [OF assms])
  show "0 < localeCompare rt ''b'' ''a'' \<longrightarrow>
          map_sum id (map slip_id) (mappedSlips rt ordering_example ''1'')
            = Inr [''c'', ''a'', ''b'']"
    by (simp add: ordering_example_order plain_slip_def)
qed

lemma sample_order: "0 < localeCompare sample_runtime ''b'' ''a''"
  by code_simp

theorem placement_slips_sorted_witness:
  "mappedSlips sample_runtime ordering_example ''1'' =
     Inr [plain_slip ''c'' ''90'' 1, plain_slip ''a'' ''80'' 5, plain_slip ''b'' ''80'' 5]
   \<and> numeric (plain_slip ''c'' ''90'' 1) \<and> numeric (plain_slip ''a'' ''80'' 5)
   \<and> numeric (plain_slip ''b'' ''80'' 5)
   \<and> collation_ok sample_runtime
        [plain_slip ''c'' ''90'' 1, plain_slip ''a'' ''80'' 5, plain_slip ''b'' ''80'' 5]
   \<and> sorted_wrt (ordered_before sample_runtime)
        [plain_slip ''c'' ''90'' 1, plain_slip ''a'' ''80'' 5, plain_slip ''b'' ''80'' 5]
   \<and> map_sum id (map slip_id) (mappedSlips sample_runtime ordering_example ''1'')
        = Inr [''c'', ''a'', ''b'']"
proof -
  let ?out = "[plain_slip ''c'' ''90'' 1, plain_slip ''a'' ''80'' 5, plain_slip ''b'' ''80'' 5]"
  have h1: "mappedSlips sample_runtime ordering_example ''1'' = Inr ?out"
    by code_simp
  have h2: "\<forall>x\<in>set ?out. numeric x"
    by code_simp
  have h3: "collation_ok sample_runtime ?out"
    by code_simp
  show ?thesis
    using placement_slips_sorted [OF h1 h2 h3] h1 h2 h3 sample_order by simp
qed

theorem placement_slips_sorted_counterexample:
  "\<not> (\<forall>ms. mappedSlips sample_runtime unparsable_example ''1'' = Inr ms
          \<longrightarrow> sorted_wrt (ordered_before sample_runtime) ms)"
proof -
  let ?out = "[plain_slip ''s1'' ''1'' 5, plain_slip ''s2'' ''n/a'' 5, plain_slip ''s3'' ''2'' 5]"
  have out: "mappedSlips sample_runtime unparsable_example ''1'' = Inr ?out"
    by code_simp
  have "\<not> sorted_wrt (ordered_before sample_runtime) ?out"
    by code_simp
  with out show ?thesis by blast
qed

section \<open>C6: field coalescing\<close>






section \<open>C10: the emitted creation time\<close>

lemma map_slip_created_at:
  "map_slip rt mm (slip, slip_legs) = Inr out \<Longrightarrow> created_at out = createdAt rt slip"
  by (auto simp: map_slip_def split: sum.splits)

text \<open>
  C10. A slip that is in the response and whose stored document has neither a
  \<open>created_at\<close> nor a \<open>generated_at\<close> field is emitted with \<open>created_at\<close> equal to the
  string \<open>"undefined"\<close>. In general the emitted value is the ISO-8601 rendering when
  \<open>created_at ?? generated_at\<close> is a \<open>Date\<close>, and the plain string form of that value in
  every other case.
\<close>

theorem created_at_of_missing_fields:
  assumes "map_slip rt mm (slip, slip_legs) = Inr out"
  shows "(slip ''created_at'' = None \<and> slip ''generated_at'' = None
            \<longrightarrow> created_at out = ''undefined'')
         \<and> (\<forall>d. coalesce (dget slip ''created_at'') (dget slip ''generated_at'') = JDate d
                \<longrightarrow> created_at out = toISOString rt d)
         \<and> ((\<forall>d. coalesce (dget slip ''created_at'') (dget slip ''generated_at'') \<noteq> JDate d)
                \<longrightarrow> created_at out =
                      String rt (coalesce (dget slip ''created_at'') (dget slip ''generated_at'')))"
proof (intro conjI impI allI)
  have c: "created_at out = createdAt rt slip"
    by (rule map_slip_created_at [OF assms])
  show "created_at out = ''undefined''"
    if "slip ''created_at'' = None \<and> slip ''generated_at'' = None"
    using that by (simp add: c createdAt_def dget_def coalesce_def nullish_def)
  show "created_at out = toISOString rt d"
    if "coalesce (dget slip ''created_at'') (dget slip ''generated_at'') = JDate d" for d
    using that by (simp add: c createdAt_def)
  show "created_at out = String rt (coalesce (dget slip ''created_at'') (dget slip ''generated_at''))"
    if "\<forall>d. coalesce (dget slip ''created_at'') (dget slip ''generated_at'') \<noteq> JDate d"
    using that
    by (cases "coalesce (dget slip ''created_at'') (dget slip ''generated_at'')")
       (simp_all add: c createdAt_def)
qed

theorem created_at_of_missing_fields_witness:
  "map_slip sample_runtime Map.empty ([''slip_id'' \<mapsto> JStr ''s1''], []) =
     Inr (plain_slip ''s1'' ''0'' 0 \<lparr> master_slip_id := NaN \<rparr>)
   \<and> [''slip_id'' \<mapsto> JStr ''s1''] ''created_at'' = None
   \<and> [''slip_id'' \<mapsto> JStr ''s1''] ''generated_at'' = None
   \<and> created_at (plain_slip ''s1'' ''0'' 0 \<lparr> master_slip_id := NaN \<rparr>) = ''undefined''"
proof -
  let ?out = "plain_slip ''s1'' ''0'' 0 \<lparr> master_slip_id := NaN \<rparr>"
  have h: "map_slip sample_runtime Map.empty ([''slip_id'' \<mapsto> JStr ''s1''], []) = Inr ?out"
    by code_simp
  have n: "[''slip_id'' \<mapsto> JStr ''s1''] ''created_at'' = None"
    "[''slip_id'' \<mapsto> JStr ''s1''] ''generated_at'' = None"
    by simp_all
  show ?thesis
    using created_at_of_missing_fields [OF h] h n by simp
qed

section \<open>C7: legs whose match cannot be resolved\<close>

lemma resolution_example_fetch:
  "fetch_slips resolution_example ''1'' =
     [([''master_slip_id'' \<mapsto> JStr ''1'', ''slip_id'' \<mapsto> JStr ''s1''],
       [[''id'' \<mapsto> JNum (Num 1), ''slip_id'' \<mapsto> JStr ''s1'', ''match_id'' \<mapsto> JNum (Num 7)],
        [''id'' \<mapsto> JNum (Num 2), ''slip_id'' \<mapsto> JStr ''s1'', ''match_id'' \<mapsto> JNum (Num 8)]])]"
  by (simp add: fetch_slips_def with_legs_def find_docs_def matches_filter_def
      field_matches_def bson_def resolution_example_def dget_def)

text \<open>
  C7. A leg without a usable embedded match whose \<open>match_id\<close> is in the map of resolved
  matches after neither tier is emitted with \<open>home_team ""\<close> and \<open>away_team ""\<close>. Every
  leg of every fetched slip is in the response, in its place, and when the request fails
  it is because some slip's risk category is not a string, never because of a leg.
\<close>

theorem unresolved_match_tolerated:
  assumes "\<not> truthy (dget leg ''match'')"
    and "map_get (matchesMap c masterSlipId (collect_match_ids (fetch_slips c masterSlipId)))
           (dget leg ''match_id'') = None"
    and "(slip, slip_legs) \<in> set (fetch_slips c masterSlipId)"
    and "leg \<in> set slip_legs"
  shows "home_team (map_leg rt (matchesMap c masterSlipId
            (collect_match_ids (fetch_slips c masterSlipId))) leg) = []
       \<and> away_team (map_leg rt (matchesMap c masterSlipId
            (collect_match_ids (fetch_slips c masterSlipId))) leg) = []
       \<and> (\<forall>ms. mappedSlips rt c masterSlipId = Inr ms \<longrightarrow>
            (\<exists>out\<in>set ms.
               legs out = map (map_leg rt (matchesMap c masterSlipId
                    (collect_match_ids (fetch_slips c masterSlipId)))) slip_legs))
       \<and> (\<forall>e. mappedSlips rt c masterSlipId = Inl e \<longrightarrow>
            (\<exists>sl\<in>set (fetch_slips c masterSlipId). riskCategory (fst sl) = Inl e))"
proof (intro conjI allI impI)
  let ?mm = "matchesMap c masterSlipId (collect_match_ids (fetch_slips c masterSlipId))"
  show "home_team (map_leg rt ?mm leg) = []"
    by (rule unresolved_leg_names(1) [OF assms(1,2)])
  show "away_team (map_leg rt ?mm leg) = []"
    by (rule unresolved_leg_names(2) [OF assms(1,2)])
  show "\<exists>out\<in>set ms. legs out = map (map_leg rt ?mm) slip_legs"
    if "mappedSlips rt c masterSlipId = Inr ms" for ms
    by (rule mappedSlips_keeps_legs [OF that assms(3)])
  show "\<exists>sl\<in>set (fetch_slips c masterSlipId). riskCategory (fst sl) = Inl e"
    if "mappedSlips rt c masterSlipId = Inl e" for e
    by (rule mappedSlips_fails_on_risk [OF that])
qed

theorem unresolved_match_tolerated_witness:
  "\<not> truthy (dget [''id'' \<mapsto> JNum (Num 2), ''slip_id'' \<mapsto> JStr ''s1'',
                       ''match_id'' \<mapsto> JNum (Num 8)] ''match'')
   \<and> map_get (matchesMap resolution_example ''1''
                 (collect_match_ids (fetch_slips resolution_example ''1'')))
         (dget [''id'' \<mapsto> JNum (Num 2), ''slip_id'' \<mapsto> JStr ''s1'',
                ''match_id'' \<mapsto> JNum (Num 8)] ''match_id'') = None
   \<and> home_team (map_leg sample_runtime
          (matchesMap resolution_example ''1''
             (collect_match_ids (fetch_slips resolution_example ''1'')))
          [''id'' \<mapsto> JNum (Num 2), ''slip_id'' \<mapsto> JStr ''s1'', ''match_id'' \<mapsto> JNum (Num 8)]) = []
   \<and> away_team (map_leg sample_runtime
          (matchesMap resolution_example ''1''
             (collect_match_ids (fetch_slips resolution_example ''1'')))
          [''id'' \<mapsto> JNum (Num 2), ''slip_id'' \<mapsto> JStr ''s1'', ''match_id'' \<mapsto> JNum (Num 8)]) = []
   \<and> map_sum id (map (map home_team \<circ> legs)) (mappedSlips sample_runtime resolution_example ''1'')
        = Inr [[''A'', '''']]"
proof -
  let ?leg = "[''id'' \<mapsto> JNum (Num 2), ''slip_id'' \<mapsto> JStr ''s1'', ''match_id'' \<mapsto> JNum (Num 8)]"
  let ?leg1 = "[''id'' \<mapsto> JNum (Num 1), ''slip_id'' \<mapsto> JStr ''s1'', ''match_id'' \<mapsto> JNum (Num 7)]"
  let ?slip = "[''master_slip_id'' \<mapsto> JStr ''1'', ''slip_id'' \<mapsto> JStr ''s1'']"
  have h1: "\<not> truthy (dget ?leg ''match'')"
    by (simp add: dget_def)
  have h2: "map_get (matchesMap resolution_example ''1''
                 (collect_match_ids (fetch_slips resolution_example ''1'')))
         (dget ?leg ''match_id'') = None"
    by code_simp
  have h3: "(?slip, [?leg1, ?leg]) \<in> set (fetch_slips resolution_example ''1'')"
    by (simp add: resolution_example_fetch)
  have h4: "?leg \<in> set [?leg1, ?leg]"
    by simp
  have r: "map_sum id (map (map home_team \<circ> legs))
             (mappedSlips sample_runtime resolution_example ''1'') = Inr [[''A'', '''']]"
    by code_simp
  show ?thesis
    using unresolved_match_tolerated [OF h1 h2 h3 h4, of sample_runtime] h1 h2 r by simp
qed
section \<open>C5: tier 1 before tier 2\<close>





section \<open>C2: validation of the sync payload\<close>

lemma syncSlips_rejected:
  assumes "\<not> nullish payload" "\<not> truthy (get payload ''master_slip'')"
  shows "syncSlips rt now rnd (Some c) payload
           = (Fail 400 ''Invalid payload: master_slip is required'', Some c)"
  using assms by (simp add: syncSlips_def)

lemma syncSlips_null_body:
  assumes "nullish payload"
  shows "syncSlips rt now rnd (Some c) payload = (Fail 500 ''Failed to sync slips'', Some c)"
  using assms by (simp add: syncSlips_def)

lemma syncSlips_accepted:
  assumes "\<not> nullish payload" "truthy (get payload ''master_slip'')"
  shows "fst (syncSlips rt now rnd (Some c) payload) \<noteq> Fail 400 msg"
  using assms by (simp add: syncSlips_def Let_def split: run.splits)

text \<open>
  C2, amended. With the store available, the sync answers 400 if and only if the body is
  an object whose \<open>master_slip\<close> is absent or another falsy value; in that case nothing
  is written.
\<close>

theorem sync_validation:
  "((\<exists>msg. fst (syncSlips rt now rnd (Some c) payload) = Fail 400 msg)
      = (\<not> nullish payload \<and> \<not> truthy (get payload ''master_slip'')))
   \<and> (\<not> nullish payload \<and> \<not> truthy (get payload ''master_slip'') \<longrightarrow>
        syncSlips rt now rnd (Some c) payload
          = (Fail 400 ''Invalid payload: master_slip is required'', Some c))"
proof (intro conjI impI)
  show "(\<exists>msg. fst (syncSlips rt now rnd (Some c) payload) = Fail 400 msg)
      = (\<not> nullish payload \<and> \<not> truthy (get payload ''master_slip''))"
  proof (cases "nullish payload")
    case True
    then show ?thesis by (simp add: syncSlips_null_body)
  next
    case False
    show ?thesis
    proof (cases "truthy (get payload ''master_slip'')")
      case True
      then show ?thesis using False syncSlips_accepted [of payload rt now rnd c] by simp
    next
      case t: False
      then show ?thesis using False by (simp add: syncSlips_rejected)
    qed
  qed
  show "syncSlips rt now rnd (Some c) payload
          = (Fail 400 ''Invalid payload: master_slip is required'', Some c)"
    if "\<not> nullish payload \<and> \<not> truthy (get payload ''master_slip'')"
    using that by (simp add: syncSlips_rejected)
qed

theorem sync_validation_witness:
  "\<not> nullish (JObj []) \<and> \<not> truthy (get (JObj []) ''master_slip'')
   \<and> syncSlips sample_runtime 0 sample_random (Some empty_store) (JObj [])
        = (Fail 400 ''Invalid payload: master_slip is required'', Some empty_store)"
proof -
  have h: "\<not> nullish (JObj []) \<and> \<not> truthy (get (JObj []) ''master_slip'')"
    by (simp add: nullish_def)
  show ?thesis
    using sync_validation [of sample_runtime 0 sample_random empty_store "JObj []"] h by blast
qed

theorem sync_validation_counterexample:
  "(case syncSlips sample_runtime 0 sample_random (Some empty_store) keyless_payload of
      (Ok rep, Some c') \<Rightarrow>
        (synced_master_slip_id rep, map (\<lambda>d. dget d ''master_slip_id'') (master_slips c'))
    | _ \<Rightarrow> ([], []))
   = (''undefined'', [JStr ''undefined''])"
  by code_simp
section \<open>C4: the upsert of legs\<close>




section \<open>C9: the canonical Match record extracted from \<open>match_data\<close>\<close>

text \<open>
  C9. The handler is run on a \<open>matches\<close> entry with \<open>match_id 10\<close> whose \<open>match_data\<close>
  is \<open>{id: 999, home_team: null, homeTeam: "Arsenal", away_team: "Chelsea"}\<close>. The
  record it stores in the global registry is keyed \<open>999\<close>, not \<open>10\<close>, and its
  \<open>home_team\<close> is \<open>null\<close>, not \<open>"Arsenal"\<close>: the spread of \<open>match_data\<close> is the last part
  of the object literal and overwrites the key and the team names computed before it.
\<close>

theorem extracted_match_overridden:
  "(case syncSlips sample_runtime 0 sample_random (Some empty_store) match_data_payload of
      (Ok rep, Some c') \<Rightarrow>
        map (\<lambda>d. (dget d ''id'', dget d ''home_team'', dget d ''away_team'')) (matches c')
    | _ \<Rightarrow> [])
   = [(JNum (Num 999), JNull, JStr ''Chelsea'')]"
  by code_simp

section \<open>C8: a sync keeps \<open>created_at\<close>\<close>

text \<open>
  C8. Let a sync pass validation with a \<open>master_slip\<close> that has no \<open>created_at\<close> key,
  and let the store hold a MasterSlip document under the payload's master slip id. After
  the sync every MasterSlip document has the \<open>created_at\<close> it had before, and the
  document under that id carries the payload's fields and \<open>updated_at\<close> equal to the
  clock of the request.
\<close>

theorem created_at_preserved:
  assumes "\<not> nullish payload"
    and "truthy (get payload ''master_slip'')"
    and "spread (get payload ''master_slip'') ''created_at'' = None"
    and "findOne [(''master_slip_id'', JStr (master_key rt (get payload ''master_slip'')))]
           (master_slips c) = Some d"
    and "snd (syncSlips rt now rnd (Some c) payload) = Some c'"
  shows "map (\<lambda>x. x ''created_at'') (master_slips c') = map (\<lambda>x. x ''created_at'') (master_slips c)
       \<and> (\<exists>d'. findOne [(''master_slip_id'', JStr (master_key rt (get payload ''master_slip'')))]
                  (master_slips c') = Some d'
               \<and> d' ''created_at'' = d ''created_at''
               \<and> d' ''updated_at'' = Some (JDate now)
               \<and> (\<forall>k v. spread (get payload ''master_slip'') k = Some v \<longrightarrow>
                      k \<noteq> ''master_slip_id'' \<longrightarrow> k \<noteq> ''updated_at'' \<longrightarrow> d' k = Some (bson v)))"
proof
  let ?ms = "get payload ''master_slip''"
  let ?f = "[(''master_slip_id'', JStr (master_key rt ?ms))]"
  let ?s = "masterSlipData rt now ?ms"
  have ms': "master_slips c' = updateOne ?f ?s (master_slips c)"
    by (rule syncSlips_master_slips [OF assms(1,2,5)])
  have nc: "?s ''created_at'' = None"
    using assms(3) by (simp add: masterSlipData_def)
  show "map (\<lambda>x. x ''created_at'') (master_slips c') = map (\<lambda>x. x ''created_at'') (master_slips c)"
    unfolding ms' by (rule updateOne_found_created_at [where s = "?s", OF nc assms(4)])
  have "matches_filter ?f (set_fields d ?s)"
    unfolding masterSlipData_def by (rule master_filter_after)
  then have found: "findOne ?f (master_slips c') = Some (set_fields d ?s)"
    unfolding ms' by (rule updateOne_found [OF _ assms(4)])
  have c: "set_fields d ?s ''created_at'' = d ''created_at''"
    using nc by (simp add: set_fields_def map_add_def)
  have u: "set_fields d ?s ''updated_at'' = Some (JDate now)"
    by (simp add: set_fields_def map_add_def masterSlipData_def bson_def)
  have p: "set_fields d ?s k = Some (bson v)"
    if "spread ?ms k = Some v" "k \<noteq> ''master_slip_id''" "k \<noteq> ''updated_at''" for k v
    using that by (simp add: set_fields_def map_add_def masterSlipData_def)
  show "\<exists>d'. findOne ?f (master_slips c') = Some d'
               \<and> d' ''created_at'' = d ''created_at''
               \<and> d' ''updated_at'' = Some (JDate now)
               \<and> (\<forall>k v. spread ?ms k = Some v \<longrightarrow>
                      k \<noteq> ''master_slip_id'' \<longrightarrow> k \<noteq> ''updated_at'' \<longrightarrow> d' k = Some (bson v))"
    using found c u p by blast
qed

theorem created_at_preserved_witness:
  "\<not> nullish restake_payload
   \<and> truthy (get restake_payload ''master_slip'')
   \<and> spread (get restake_payload ''master_slip'') ''created_at'' = None
   \<and> map (\<lambda>x. dget x ''created_at'') (master_slips created_example) = [JDate 1]
   \<and> (case syncSlips sample_runtime 7 sample_random (Some created_example) restake_payload of
         (r, Some c') \<Rightarrow>
           map (\<lambda>x. (dget x ''created_at'', dget x ''stake'', dget x ''updated_at''))
             (master_slips c')
       | _ \<Rightarrow> [])
       = [(JDate 1, JNum (Num 10), JDate 7)]
   \<and> map (\<lambda>x. x ''created_at'')
         (master_slips (the (snd (syncSlips sample_runtime 7 sample_random
                                    (Some created_example) restake_payload))))
       = map (\<lambda>x. x ''created_at'') (master_slips created_example)"
proof -
  let ?d = "[''master_slip_id'' \<mapsto> JStr ''5'', ''created_at'' \<mapsto> JDate 1, ''stake'' \<mapsto> JNum (Num 1)]"
  have h1: "\<not> nullish restake_payload" by (simp add: restake_payload_def nullish_def)
  have h2: "truthy (get restake_payload ''master_slip'')" by (simp add: restake_payload_def)
  have h3: "spread (get restake_payload ''master_slip'') ''created_at'' = None"
    by (simp add: restake_payload_def)
  have k: "master_key sample_runtime (get restake_payload ''master_slip'') = ''5''"
    by code_simp
  have h4: "findOne [(''master_slip_id'',
                      JStr (master_key sample_runtime (get restake_payload ''master_slip'')))]
              (master_slips created_example) = Some ?d"
    unfolding k
    by (simp add: findOne_def created_example_def matches_filter_def field_matches_def bson_def)
  obtain c' where h5: "snd (syncSlips sample_runtime 7 sample_random (Some created_example)
                              restake_payload) = Some c'"
    using h1 h2 by (simp add: syncSlips_def Let_def restake_payload_def array_items_def)
  have e1: "map (\<lambda>x. dget x ''created_at'') (master_slips created_example) = [JDate 1]"
    by code_simp
  have e2: "(case syncSlips sample_runtime 7 sample_random (Some created_example) restake_payload of
         (r, Some c') \<Rightarrow>
           map (\<lambda>x. (dget x ''created_at'', dget x ''stake'', dget x ''updated_at''))
             (master_slips c')
       | _ \<Rightarrow> [])
       = [(JDate 1, JNum (Num 10), JDate 7)]"
    by code_simp
  have "map (\<lambda>x. x ''created_at'') (master_slips c')
          = map (\<lambda>x. x ''created_at'') (master_slips created_example)"
    using created_at_preserved [OF h1 h2 h3 h4 h5] by (rule conjunct1)
  then show ?thesis using h1 h2 h3 h5 e1 e2 by simp
qed

end
